theory Spec2Isabelle
  imports Main "HOL-Library.Word"
begin

section \<open>JavaScript strings\<close>

text \<open>
  A JavaScript string is a sequence of UTF-16 code units.  String literals of the
  source are ASCII, written here as \<open>js ''...''\<close>.
\<close>

type_synonym code_unit = "16 word"
type_synonym jsstring = "code_unit list"

definition js :: "string \<Rightarrow> jsstring" where
  "js s = map (\<lambda>c. word_of_nat (of_char c)) s"

text \<open>
  \<open>String.prototype.trim\<close> strips the code points of the ECMAScript productions
  WhiteSpace and LineTerminator from both ends.  All of them lie in the Basic
  Multilingual Plane, so the test is on single code units.
\<close>

definition isWhiteSpace :: "code_unit \<Rightarrow> bool" where
  "isWhiteSpace c =
     (c = 0x0009 \<or> c = 0x000A \<or> c = 0x000B \<or> c = 0x000C \<or> c = 0x000D
      \<or> c = 0x0020 \<or> c = 0x00A0 \<or> c = 0x1680 \<or> (0x2000 \<le> c \<and> c \<le> 0x200A)
      \<or> c = 0x2028 \<or> c = 0x2029 \<or> c = 0x202F \<or> c = 0x205F \<or> c = 0x3000
      \<or> c = 0xFEFF)"

definition trim :: "jsstring \<Rightarrow> jsstring" where
  "trim u = rev (dropWhile isWhiteSpace (rev (dropWhile isWhiteSpace u)))"

definition startsWith :: "jsstring \<Rightarrow> jsstring \<Rightarrow> bool" where
  "startsWith s p = (take (length p) s = p)"

text \<open>Template literals render a non-negative integer (a close code) in decimal.\<close>

fun decimal :: "nat \<Rightarrow> jsstring" where
  "decimal n =
     (if n < 10 then [word_of_nat (48 + n)]
      else decimal (n div 10) @ [word_of_nat (48 + n mod 10)])"

declare decimal.simps [simp del]

section \<open>The platform's JSON object\<close>

text \<open>
  \<open>JSON.parse\<close> and \<open>JSON.stringify\<close> belong to the JavaScript platform, not to the
  application.  They are modelled after ECMA-262 (sections JSON.parse, JSON.stringify,
  SerializeJSONProperty, QuoteJSONString) and the JSON grammar of ECMA-404.

  A value produced by \<open>JSON.parse\<close>.  An object is the list of its own properties in
  enumeration order.  A number keeps the text of its literal; its rendering is
  \<open>Number_toString\<close> below.
\<close>

datatype json =
    JNull
  | JBool bool
  | JNumber jsstring
  | JString jsstring
  | JArray "json list"
  | JObject "(jsstring \<times> json) list"

definition isJsonWs :: "code_unit \<Rightarrow> bool" where
  "isJsonWs c = (c = 0x09 \<or> c = 0x0A \<or> c = 0x0D \<or> c = 0x20)"

definition skipWs :: "jsstring \<Rightarrow> jsstring" where
  "skipWs cs = dropWhile isJsonWs cs"

definition isDigit :: "code_unit \<Rightarrow> bool" where
  "isDigit c = (0x30 \<le> c \<and> c \<le> 0x39)"

definition hexval :: "code_unit \<Rightarrow> code_unit option" where
  "hexval c =
     (if 0x30 \<le> c \<and> c \<le> 0x39 then Some (c - 0x30)
      else if 0x41 \<le> c \<and> c \<le> 0x46 then Some (c - 0x41 + 10)
      else if 0x61 \<le> c \<and> c \<le> 0x66 then Some (c - 0x61 + 10)
      else None)"

definition hex4 ::
  "code_unit \<Rightarrow> code_unit \<Rightarrow> code_unit \<Rightarrow> code_unit \<Rightarrow> code_unit option" where
  "hex4 a b c d =
     (case (hexval a, hexval b, hexval c, hexval d) of
        (Some x, Some y, Some z, Some w) \<Rightarrow> Some (((x * 16 + y) * 16 + z) * 16 + w)
      | _ \<Rightarrow> None)"

text \<open>The single-character escapes: quote, backslash, slash, b, f, n, r, t.\<close>

definition unescape :: "code_unit \<Rightarrow> code_unit option" where
  "unescape e =
     (if e = 0x22 then Some 0x22
      else if e = 0x5C then Some 0x5C
      else if e = 0x2F then Some 0x2F
      else if e = 0x62 then Some 0x08
      else if e = 0x66 then Some 0x0C
      else if e = 0x6E then Some 0x0A
      else if e = 0x72 then Some 0x0D
      else if e = 0x74 then Some 0x09
      else None)"

text \<open>
  The characters of a string after its opening quote, up to the closing quote.
  Control characters below U+0020 must be escaped.
\<close>

fun parse_chars :: "jsstring \<Rightarrow> jsstring \<Rightarrow> (jsstring \<times> jsstring) option" where
  "parse_chars acc [] = None"
| "parse_chars acc (c # cs) =
     (if c = 0x22 then Some (acc, cs)
      else if c = 0x5C then
        (case cs of
           [] \<Rightarrow> None
         | e # es \<Rightarrow>
             if e = 0x75 then
               (case es of
                  a # b # c' # d # rest \<Rightarrow>
                    (case hex4 a b c' d of
                       None \<Rightarrow> None
                     | Some u \<Rightarrow> parse_chars (acc @ [u]) rest)
                | _ \<Rightarrow> None)
             else
               (case unescape e of
                  None \<Rightarrow> None
                | Some x \<Rightarrow> parse_chars (acc @ [x]) es))
      else if c < 0x20 then None
      else parse_chars (acc @ [c]) cs)"

text \<open>
  A number: an optional minus, an integer part without leading zeros, an optional
  fraction, an optional exponent.  The result is the text of the literal.
\<close>

definition parse_digits :: "jsstring \<Rightarrow> (jsstring \<times> jsstring) option" where
  "parse_digits cs =
     (if takeWhile isDigit cs = [] then None
      else Some (takeWhile isDigit cs, dropWhile isDigit cs))"

definition parse_int :: "jsstring \<Rightarrow> (jsstring \<times> jsstring) option" where
  "parse_int cs =
     (case cs of
        [] \<Rightarrow> None
      | d # r \<Rightarrow>
          if d = 0x30 then Some ([d], r)
          else if isDigit d then Some (d # takeWhile isDigit r, dropWhile isDigit r)
          else None)"

definition parse_frac :: "jsstring \<Rightarrow> (jsstring \<times> jsstring) option" where
  "parse_frac cs =
     (case cs of
        [] \<Rightarrow> Some ([], cs)
      | p # r \<Rightarrow>
          if p = 0x2E then
            (case parse_digits r of
               None \<Rightarrow> None
             | Some (ds, r') \<Rightarrow> Some (p # ds, r'))
          else Some ([], cs))"

definition parse_exp :: "jsstring \<Rightarrow> (jsstring \<times> jsstring) option" where
  "parse_exp cs =
     (case cs of
        [] \<Rightarrow> Some ([], cs)
      | e # r \<Rightarrow>
          if e = 0x65 \<or> e = 0x45 then
            (case r of
               [] \<Rightarrow> None
             | s # r' \<Rightarrow>
                 if s = 0x2B \<or> s = 0x2D then
                   (case parse_digits r' of
                      None \<Rightarrow> None
                    | Some (ds, r'') \<Rightarrow> Some (e # s # ds, r''))
                 else
                   (case parse_digits r of
                      None \<Rightarrow> None
                    | Some (ds, r'') \<Rightarrow> Some (e # ds, r'')))
          else Some ([], cs))"

definition parse_number :: "jsstring \<Rightarrow> (jsstring \<times> jsstring) option" where
  "parse_number cs =
     (let (sign, r0) = (case cs of
                          [] \<Rightarrow> ([], cs)
                        | m # r \<Rightarrow> if m = 0x2D then ([m], r) else ([], cs))
      in case parse_int r0 of
           None \<Rightarrow> None
         | Some (i, r1) \<Rightarrow>
             (case parse_frac r1 of
                None \<Rightarrow> None
              | Some (f, r2) \<Rightarrow>
                  (case parse_exp r2 of
                     None \<Rightarrow> None
                   | Some (e, r3) \<Rightarrow> Some (sign @ i @ f @ e, r3))))"

definition parse_literal :: "jsstring \<Rightarrow> (json \<times> jsstring) option" where
  "parse_literal cs =
     (if startsWith cs (js ''null'') then Some (JNull, drop 4 cs)
      else if startsWith cs (js ''true'') then Some (JBool True, drop 4 cs)
      else if startsWith cs (js ''false'') then Some (JBool False, drop 5 cs)
      else None)"

text \<open>
  Property order of an ordinary object: array-index keys in ascending numeric order
  first, then the other keys in order of creation.  Defining a key again replaces the
  value and keeps the position.
\<close>

definition digit_value :: "code_unit \<Rightarrow> int" where
  "digit_value c = uint (c - 0x30)"

definition decimal_value :: "jsstring \<Rightarrow> int" where
  "decimal_value ds = foldl (\<lambda>n c. 10 * n + digit_value c) 0 ds"

definition isArrayIndex :: "jsstring \<Rightarrow> bool" where
  "isArrayIndex k =
     (k \<noteq> [] \<and> list_all isDigit k \<and> (hd k \<noteq> 0x30 \<or> length k = 1)
      \<and> decimal_value k < 4294967295)"

fun insert_index ::
  "jsstring \<Rightarrow> json \<Rightarrow> (jsstring \<times> json) list \<Rightarrow> (jsstring \<times> json) list" where
  "insert_index k v [] = [(k, v)]"
| "insert_index k v ((k', v') # kvs) =
     (if isArrayIndex k' \<and> decimal_value k' < decimal_value k
      then (k', v') # insert_index k v kvs
      else (k, v) # (k', v') # kvs)"

definition obj_put ::
  "jsstring \<Rightarrow> json \<Rightarrow> (jsstring \<times> json) list \<Rightarrow> (jsstring \<times> json) list" where
  "obj_put k v kvs =
     (if k \<in> set (map fst kvs)
      then map (\<lambda>(k', v'). if k' = k then (k', v) else (k', v')) kvs
      else if isArrayIndex k then insert_index k v kvs
      else kvs @ [(k, v)])"

lemma skipWs_Cons_length: "skipWs xs = y # ys \<Longrightarrow> length ys < length xs"
proof -
  assume a: "skipWs xs = y # ys"
  have "length (skipWs xs) \<le> length xs"
    unfolding skipWs_def by (rule length_dropWhile_le)
  with a show ?thesis by simp
qed

text \<open>
  The recursive descent.  Each function returns the value and the rest of the input.
  The tests \<open>length r < length cs\<close> make the recursion well-founded.  They never
  fail (\<open>parse_value_shorter\<close>), so the functions satisfy the equations without them
  (\<open>parse_elements_unguarded\<close>, \<open>parse_members_unguarded\<close>).
\<close>

function parse_value :: "jsstring \<Rightarrow> (json \<times> jsstring) option"
  and parse_elements :: "json list \<Rightarrow> jsstring \<Rightarrow> (json \<times> jsstring) option"
  and parse_members ::
    "(jsstring \<times> json) list \<Rightarrow> jsstring \<Rightarrow> (json \<times> jsstring) option"
where
  "parse_value cs =
     (case skipWs cs of
        [] \<Rightarrow> None
      | c # r \<Rightarrow>
          if c = 0x5B then
            (case skipWs r of
               [] \<Rightarrow> None
             | d # r' \<Rightarrow> if d = 0x5D then Some (JArray [], r') else parse_elements [] r)
          else if c = 0x7B then
            (case skipWs r of
               [] \<Rightarrow> None
             | d # r' \<Rightarrow> if d = 0x7D then Some (JObject [], r') else parse_members [] r)
          else if c = 0x22 then
            (case parse_chars [] r of
               None \<Rightarrow> None
             | Some (str, r') \<Rightarrow> Some (JString str, r'))
          else if c = 0x2D \<or> isDigit c then
            (case parse_number (c # r) of
               None \<Rightarrow> None
             | Some (lit, r') \<Rightarrow> Some (JNumber lit, r'))
          else parse_literal (c # r))"
| "parse_elements acc cs =
     (case parse_value cs of
        None \<Rightarrow> None
      | Some (v, r) \<Rightarrow>
          if length r < length cs then
            (case skipWs r of
               [] \<Rightarrow> None
             | d # r' \<Rightarrow>
                 if d = 0x2C then parse_elements (acc @ [v]) r'
                 else if d = 0x5D then Some (JArray (acc @ [v]), r')
                 else None)
          else None)"
| "parse_members acc cs =
     (case skipWs cs of
        [] \<Rightarrow> None
      | q # r \<Rightarrow>
          if q \<noteq> 0x22 then None
          else
            (case parse_chars [] r of
               None \<Rightarrow> None
             | Some (k, r1) \<Rightarrow>
                 (case skipWs r1 of
                    [] \<Rightarrow> None
                  | col # r2 \<Rightarrow>
                      if col \<noteq> 0x3A \<or> \<not> length r2 < length cs then None
                      else
                        (case parse_value r2 of
                           None \<Rightarrow> None
                         | Some (v, r3) \<Rightarrow>
                             if length r3 < length r2 then
                               (case skipWs r3 of
                                  [] \<Rightarrow> None
                                | d # r4 \<Rightarrow>
                                    if d = 0x2C then parse_members (obj_put k v acc) r4
                                    else if d = 0x7D
                                      then Some (JObject (obj_put k v acc), r4)
                                    else None)
                             else None))))"
  by pat_completeness auto

termination
  apply (relation "measure (\<lambda>x. case x of
            Inl cs \<Rightarrow> 2 * length cs
          | Inr (Inl (acc, cs)) \<Rightarrow> 2 * length cs + 1
          | Inr (Inr (acc, cs)) \<Rightarrow> 2 * length cs + 1)")
       apply simp
      apply (drule skipWs_Cons_length, simp)
     apply (drule skipWs_Cons_length, simp)
    apply simp
   apply (auto dest!: skipWs_Cons_length)
  done

declare parse_value.simps [simp del] parse_elements.simps [simp del]
  parse_members.simps [simp del]

text \<open>
  \<open>JSON.parse(text)\<close>: a value surrounded by white space and nothing else;
  \<open>None\<close> stands for the SyntaxError it throws otherwise.
\<close>

definition JSON_parse :: "jsstring \<Rightarrow> json option" where
  "JSON_parse text =
     (case parse_value text of
        None \<Rightarrow> None
      | Some (v, r) \<Rightarrow> if skipWs r = [] then Some v else None)"

section \<open>The platform\<close>

text \<open>
  What the application observes of the browser.  Reads of the random source and of
  the clock are indexed by the number of reads made so far (the field \<open>tick\<close> of the
  state), so they may return anything, also the same value twice.
  \<^item> \<open>randomUUID n\<close>, \<open>toLocaleTimeString n\<close>: the results of the \<open>n\<close>-th
    \<open>crypto.randomUUID()\<close> and \<open>new Date().toLocaleTimeString()\<close>;
  \<^item> \<open>WebSocket_throws url\<close>: \<open>Some m\<close> when \<open>new WebSocket(url)\<close> throws an
    exception whose \<open>message\<close> renders as \<open>m\<close>, \<open>None\<close> when it returns a socket;
  \<^item> \<open>send_throws n w data\<close>: the same for \<open>w.send(data)\<close>, made as the \<open>n\<close>-th
    observable action;
  \<^item> \<open>SyntaxError_message text\<close>: the \<open>message\<close> of the SyntaxError that
    \<open>JSON.parse(text)\<close> throws;
  \<^item> \<open>Number_toString lit\<close>: the rendering of the number that the literal \<open>lit\<close>
    denotes, for the literals not covered by \<open>number_text\<close> below.
\<close>

record platform =
  randomUUID :: "nat \<Rightarrow> jsstring"
  toLocaleTimeString :: "nat \<Rightarrow> jsstring"
  WebSocket_throws :: "jsstring \<Rightarrow> jsstring option"
  send_throws :: "nat \<Rightarrow> nat \<Rightarrow> jsstring \<Rightarrow> jsstring option"
  SyntaxError_message :: "jsstring \<Rightarrow> jsstring"
  Number_toString :: "jsstring \<Rightarrow> jsstring"

subsection \<open>JSON.stringify\<close>

text \<open>
  An integer literal of at most 15 digits denotes an integer below \<open>2^53\<close>, which a
  double holds exactly and \<open>Number::toString\<close> prints in plain decimal; minus zero
  prints as \<open>0\<close>.  Every other literal goes through a double and is left to the
  platform.
\<close>

definition number_text :: "platform \<Rightarrow> jsstring \<Rightarrow> jsstring" where
  "number_text P lit =
     (if lit = js ''-0'' then js ''0''
      else if list_all isDigit lit \<and> length lit \<le> 15 then lit
      else if lit \<noteq> [] \<and> hd lit = 0x2D \<and> list_all isDigit (tl lit) \<and> length (tl lit) \<le> 15
        then lit
      else Number_toString P lit)"

definition hexdigit :: "code_unit \<Rightarrow> code_unit" where
  "hexdigit n = (if n < 10 then 0x30 + n else 0x61 + (n - 10))"

definition UnicodeEscape :: "code_unit \<Rightarrow> jsstring" where
  "UnicodeEscape c =
     [0x5C, 0x75, hexdigit (drop_bit 12 c), hexdigit (take_bit 4 (drop_bit 8 c)),
      hexdigit (take_bit 4 (drop_bit 4 c)), hexdigit (take_bit 4 c)]"

definition isLeadingSurrogate :: "code_unit \<Rightarrow> bool" where
  "isLeadingSurrogate c = (0xD800 \<le> c \<and> c \<le> 0xDBFF)"

definition isTrailingSurrogate :: "code_unit \<Rightarrow> bool" where
  "isTrailingSurrogate c = (0xDC00 \<le> c \<and> c \<le> 0xDFFF)"

text \<open>The body of QuoteJSONString: a surrogate pair is kept, a lone surrogate escaped.\<close>

fun quote_chars :: "jsstring \<Rightarrow> jsstring" where
  "quote_chars [] = []"
| "quote_chars [c] =
     (if c = 0x08 then [0x5C, 0x62]
      else if c = 0x09 then [0x5C, 0x74]
      else if c = 0x0A then [0x5C, 0x6E]
      else if c = 0x0C then [0x5C, 0x66]
      else if c = 0x0D then [0x5C, 0x72]
      else if c = 0x22 then [0x5C, 0x22]
      else if c = 0x5C then [0x5C, 0x5C]
      else if c < 0x20 \<or> isLeadingSurrogate c \<or> isTrailingSurrogate c then UnicodeEscape c
      else [c])"
| "quote_chars (c # d # cs) =
     (if isLeadingSurrogate c \<and> isTrailingSurrogate d then c # d # quote_chars cs
      else quote_chars [c] @ quote_chars (d # cs))"

definition QuoteJSONString :: "jsstring \<Rightarrow> jsstring" where
  "QuoteJSONString s = [0x22] @ quote_chars s @ [0x22]"

fun join :: "jsstring \<Rightarrow> jsstring list \<Rightarrow> jsstring" where
  "join sep [] = []"
| "join sep [x] = x"
| "join sep (x # y # ys) = x @ sep @ join sep (y # ys)"

text \<open>
  SerializeJSONProperty with its state: \<open>gap\<close> is the indentation unit (empty for the
  compact form) and \<open>indent\<close> the current indentation.  A value built by
  \<open>JSON.parse\<close> has no \<open>toJSON\<close> method and no undefined member.
\<close>

fun SerializeJSONProperty :: "platform \<Rightarrow> jsstring \<Rightarrow> jsstring \<Rightarrow> json \<Rightarrow> jsstring" where
  "SerializeJSONProperty P gap indent JNull = js ''null''"
| "SerializeJSONProperty P gap indent (JBool b) = (if b then js ''true'' else js ''false'')"
| "SerializeJSONProperty P gap indent (JNumber lit) = number_text P lit"
| "SerializeJSONProperty P gap indent (JString s) = QuoteJSONString s"
| "SerializeJSONProperty P gap indent (JArray vs) =
     (if vs = [] then js ''[]''
      else if gap = []
        then [0x5B] @ join [0x2C] (map (SerializeJSONProperty P gap (indent @ gap)) vs) @ [0x5D]
      else [0x5B, 0x0A] @ (indent @ gap)
             @ join ([0x2C, 0x0A] @ (indent @ gap))
                 (map (SerializeJSONProperty P gap (indent @ gap)) vs)
             @ [0x0A] @ indent @ [0x5D])"
| "SerializeJSONProperty P gap indent (JObject kvs) =
     (if kvs = [] then js ''{}''
      else if gap = []
        then [0x7B]
               @ join [0x2C]
                   (map (\<lambda>kv. QuoteJSONString (fst kv) @ [0x3A]
                               @ SerializeJSONProperty P gap (indent @ gap) (snd kv)) kvs)
               @ [0x7D]
      else [0x7B, 0x0A] @ (indent @ gap)
             @ join ([0x2C, 0x0A] @ (indent @ gap))
                 (map (\<lambda>kv. QuoteJSONString (fst kv) @ [0x3A, 0x20]
                             @ SerializeJSONProperty P gap (indent @ gap) (snd kv)) kvs)
             @ [0x0A] @ indent @ [0x7D])"

text \<open>
  \<open>JSON.stringify(value, null, space)\<close> for a numeric \<open>space\<close> (0 when it is left
  out): the gap is \<open>min space 10\<close> spaces.
\<close>

definition JSON_stringify :: "platform \<Rightarrow> json \<Rightarrow> nat \<Rightarrow> jsstring" where
  "JSON_stringify P v space = SerializeJSONProperty P (replicate (min space 10) 0x20) [] v"

section \<open>Application state\<close>

datatype status = Disconnected | Connecting | Connected

text \<open>The constant \<open>DIRECTION\<close>: the \<open>type\<close> of a log entry.\<close>

datatype direction = SENT | RECEIVED | SYSTEM

text \<open>A log entry, \<open>{id, time, type, text}\<close>.\<close>

record log_entry =
  entry_id :: jsstring
  entry_time :: jsstring
  entry_type :: direction
  entry_text :: jsstring

text \<open>A saved connection, \<open>{id, label, url, secure}\<close>.\<close>

record saved_url =
  su_id :: jsstring
  su_label :: jsstring
  su_url :: jsstring
  su_secure :: bool

text \<open>
  The actions of a handler that are observable besides the state it leaves: the
  calls of \<open>setStatus\<close>, of the WebSocket constructor and of a socket's \<open>send\<close> and
  \<open>close\<close>, in the order they are made.  A socket is named by a number: the
  position in the trace of the constructor call that made it.
\<close>

datatype action =
    SetStatus status
  | NewWebSocket jsstring
  | WsSend nat jsstring
  | WsClose nat nat jsstring

text \<open>
  The hooks of \<open>App\<close>: the \<open>useState\<close> cells, \<open>wsRef.current\<close> (\<open>None\<close> for
  \<open>null\<close>), and two fields of bookkeeping: \<open>tick\<close> counts the reads of the random
  source and the clock, \<open>trace\<close> records the actions.
\<close>

record state =
  url :: jsstring
  isSecure :: bool
  wsRef :: "nat option"
  status :: status
  error :: jsstring
  message :: jsstring
  isJson :: bool
  log :: "log_entry list"
  savedUrls :: "saved_url list"
  urlLabel :: jsstring
  tick :: nat
  trace :: "action list"

definition setError :: "jsstring \<Rightarrow> state \<Rightarrow> state" where
  "setError m s = s\<lparr>error := m\<rparr>"

definition setStatus :: "status \<Rightarrow> state \<Rightarrow> state" where
  "setStatus st s = s\<lparr>status := st, trace := trace s @ [SetStatus st]\<rparr>"

definition setLog :: "log_entry list \<Rightarrow> state \<Rightarrow> state" where
  "setLog l s = s\<lparr>log := l\<rparr>"

definition act :: "action \<Rightarrow> state \<Rightarrow> state" where
  "act a s = s\<lparr>trace := trace s @ [a]\<rparr>"

text \<open>
  \<open>addLog(entry)\<close> queues the updater \<open>prev => [...prev, {id, time, ...entry}]\<close>;
  every caller passes \<open>type\<close> and \<open>text\<close> only.
\<close>

definition addLog :: "platform \<Rightarrow> direction \<Rightarrow> jsstring \<Rightarrow> state \<Rightarrow> state" where
  "addLog P d t s =
     s\<lparr>log := log s @ [\<lparr>entry_id = randomUUID P (tick s),
                          entry_time = toLocaleTimeString P (tick s),
                          entry_type = d, entry_text = t\<rparr>],
       tick := Suc (tick s)\<rparr>"

text \<open>The render reads the log as it is (\<open>log.map\<close> in the returned markup).\<close>

definition snapshot :: "state \<Rightarrow> log_entry list" where
  "snapshot s = log s"

section \<open>Session controller\<close>

definition protocolHint :: "bool \<Rightarrow> jsstring" where
  "protocolHint secure = (if secure then js ''wss://'' else js ''ws://'')"

definition normalizeUrl :: "bool \<Rightarrow> jsstring \<Rightarrow> jsstring" where
  "normalizeUrl secure u =
     (if u = [] then []
      else if startsWith (trim u) (js ''ws://'') \<or> startsWith (trim u) (js ''wss://'')
        then trim u
      else protocolHint secure @ trim u)"

definition connect :: "platform \<Rightarrow> state \<Rightarrow> state" where
  "connect P s =
     (let target = normalizeUrl (isSecure s) (url s);
          s1 = setError [] s
      in if target = [] then
           addLog P SYSTEM (js ''No URL provided.'')
             (setError (js ''Please enter a valid WebSocket URL.'') s1)
         else
           let s2 = setStatus Connecting
                      (addLog P SYSTEM (js ''Connecting to '' @ target @ js '' ...'') s1);
               s3 = act (NewWebSocket target) s2
           in case WebSocket_throws P target of
                None \<Rightarrow> s3\<lparr>wsRef := Some (length (trace s2))\<rparr>
              | Some m \<Rightarrow>
                  addLog P SYSTEM (js ''Failed to connect: '' @ m)
                    (setError (js ''Failed to connect: '' @ m)
                       (setStatus Disconnected s3)))"

text \<open>The four handlers that \<open>connect\<close> installs on the socket.\<close>

definition onopen :: "platform \<Rightarrow> jsstring \<Rightarrow> state \<Rightarrow> state" where
  "onopen P target s =
     addLog P SYSTEM (js ''Connected to '' @ target) (setStatus Connected s)"

definition onmessage :: "platform \<Rightarrow> jsstring \<Rightarrow> state \<Rightarrow> state" where
  "onmessage P data s =
     addLog P RECEIVED
       (case JSON_parse data of
          None \<Rightarrow> data
        | Some maybe \<Rightarrow> JSON_stringify P maybe 2) s"

text \<open>\<open>evt?.message || 'An error occurred'\<close>; \<open>None\<close> is an event without message.\<close>

definition onerror :: "platform \<Rightarrow> jsstring option \<Rightarrow> state \<Rightarrow> state" where
  "onerror P evt_message s =
     addLog P SYSTEM
       (js ''Error: '' @
          (case evt_message of
             None \<Rightarrow> js ''An error occurred''
           | Some m \<Rightarrow> if m = [] then js ''An error occurred'' else m))
       (setError (js ''WebSocket error occurred. Check the console or server.'') s)"

definition onclose :: "platform \<Rightarrow> nat \<Rightarrow> jsstring \<Rightarrow> state \<Rightarrow> state" where
  "onclose P code reason s =
     addLog P SYSTEM
       (js ''Disconnected ('' @ decimal code @ js '') - '' @
          (if reason = [] then js ''Connection closed'' else reason))
       (setStatus Disconnected s)"

text \<open>An exception of \<open>close\<close> is swallowed, so its outcome does not matter.\<close>

definition disconnect :: "platform \<Rightarrow> state \<Rightarrow> state" where
  "disconnect P s =
     addLog P SYSTEM (js ''Disconnected by user'')
       (setStatus Disconnected
          (case wsRef s of
             None \<Rightarrow> s
           | Some w \<Rightarrow> act (WsClose w 1000 (js ''User disconnect'')) s))"

text \<open>
  The guard \<open>status !== 'connected' || !wsRef.current\<close> lets a call through only
  with status \<open>connected\<close> and a socket \<open>w\<close> in \<open>wsRef.current\<close>.
\<close>

definition sendMessage :: "platform \<Rightarrow> state \<Rightarrow> state" where
  "sendMessage P s =
     (let s1 = setError [] s in
      case (if status s \<noteq> Connected then None else wsRef s) of
        None \<Rightarrow>
          addLog P SYSTEM (js ''Cannot send: not connected'')
            (setError (js ''Not connected to a WebSocket server.'') s1)
      | Some w \<Rightarrow>
          if trim (message s) = [] then s1
          else
            (case (if isJson s
                   then (case JSON_parse (message s) of
                           None \<Rightarrow> None
                         | Some parsed \<Rightarrow> Some (JSON_stringify P parsed 0))
                   else Some (message s)) of
               None \<Rightarrow>
                 addLog P SYSTEM (js ''Invalid JSON: '' @ SyntaxError_message P (message s))
                   (setError (js ''Invalid JSON: '' @ SyntaxError_message P (message s)) s1)
             | Some payload \<Rightarrow>
                 (case send_throws P (length (trace s1)) w payload of
                    None \<Rightarrow>
                      addLog P SENT
                        (if isJson s
                         then (case JSON_parse payload of
                                 None \<Rightarrow> payload
                               | Some v \<Rightarrow> JSON_stringify P v 2)
                         else payload)
                        (act (WsSend w payload) s1)
                  | Some m \<Rightarrow>
                      addLog P SYSTEM (js ''Send failed: '' @ m)
                        (setError (js ''Send failed: '' @ m)
                           (act (WsSend w payload) s1)))))"

section \<open>Log model and saved connections\<close>

definition clearLog :: "platform \<Rightarrow> state \<Rightarrow> state" where
  "clearLog P s = addLog P SYSTEM (js ''Log cleared'') (setLog [] s)"

text \<open>
  \<open>saveCurrentUrl\<close>: the entry is built, with a fresh id, before the updater looks
  for a saved entry with the same url, secure flag and label.
\<close>

definition saveCurrentUrl :: "platform \<Rightarrow> state \<Rightarrow> state" where
  "saveCurrentUrl P s =
     (let u = trim (url s) in
      if u = [] then s
      else
        let entry = \<lparr>su_id = randomUUID P (tick s),
                     su_label = (if trim (urlLabel s) = [] then u else trim (urlLabel s)),
                     su_url = u,
                     su_secure = isSecure s\<rparr>
        in s\<lparr>savedUrls :=
                (if list_ex (\<lambda>x. su_url x = su_url entry \<and> su_secure x = su_secure entry
                                 \<and> su_label x = su_label entry) (savedUrls s)
                 then savedUrls s
                 else savedUrls s @ [entry]),
              urlLabel := [],
              tick := Suc (tick s)\<rparr>)"

text \<open>The scenario of appending several entries: one \<open>addLog\<close> call each.\<close>

definition addLogs :: "platform \<Rightarrow> (direction \<times> jsstring) list \<Rightarrow> state \<Rightarrow> state" where
  "addLogs P es s = fold (\<lambda>e. addLog P (fst e) (snd e)) es s"

section \<open>Dispatch of one invocation\<close>

datatype operation =
    Connect
  | Disconnect
  | Send
  | OnOpen jsstring
  | OnMessage jsstring
  | OnError "jsstring option"
  | OnClose nat jsstring

fun invoke :: "platform \<Rightarrow> operation \<Rightarrow> state \<Rightarrow> state" where
  "invoke P Connect s = connect P s"
| "invoke P Disconnect s = disconnect P s"
| "invoke P Send s = sendMessage P s"
| "invoke P (OnOpen target) s = onopen P target s"
| "invoke P (OnMessage data) s = onmessage P data s"
| "invoke P (OnError m) s = onerror P m s"
| "invoke P (OnClose code reason) s = onclose P code reason s"

section \<open>Examples\<close>

text \<open>The state of a freshly mounted \<open>App\<close>: the initial values of its hooks.\<close>

definition initial :: state where
  "initial =
     \<lparr>url = [], isSecure = True, wsRef = None, status = Disconnected, error = [],
      message = [], isJson = False, log = [], savedUrls = [], urlLabel = [],
      tick = 0, trace = []\<rparr>"

text \<open>
  A platform for the examples.  Its WebSocket constructor rejects a URL that is only
  the scheme, as browsers do (\<open>new WebSocket('wss://')\<close> throws a SyntaxError), and
  its sockets accept every \<open>send\<close>.
\<close>

definition example_platform :: platform where
  "example_platform =
     \<lparr>randomUUID = (\<lambda>n. js ''uuid-'' @ decimal n),
      toLocaleTimeString = (\<lambda>n. js ''12:00:00 PM''),
      WebSocket_throws =
        (\<lambda>u. if u = js ''ws://'' \<or> u = js ''wss://''
             then Some (js ''The URL is invalid.'') else None),
      send_throws = (\<lambda>n w d. None),
      SyntaxError_message = (\<lambda>t. js ''Unexpected token''),
      Number_toString = (\<lambda>lit. lit)\<rparr>"

text \<open>
  A session in which a socket opens after \<open>wsRef\<close> has moved on.  The user connects
  (socket 1), it opens, the user disconnects and connects again (socket 6); the close
  event of socket 1 sets the status to disconnected, which enables the Connect button,
  and the user connects once more (socket 9, now in \<open>wsRef\<close>); then socket 6 opens
  and its handler sets the status to connected.  The user types the message and
  switches JSON mode on.  On \<open>connecting_platform\<close> socket 9 has not opened yet, so
  its \<open>send\<close> throws.
\<close>

definition connecting_platform :: platform where
  "connecting_platform =
     example_platform
       \<lparr>send_throws :=
          (\<lambda>n w d. if w = 9 then Some (js ''Still in CONNECTING state.'') else None)\<rparr>"

definition superseded_open :: state where
  \<open>superseded_open =
     (let P = connecting_platform;
          s0 = initial\<lparr>url := js ''h'', isSecure := True, message := [], isJson := False,
                       urlLabel := []\<rparr>;
          s1 = invoke P Connect s0;
          s2 = invoke P (OnOpen (js ''wss://h'')) s1;
          s3 = invoke P Disconnect s2;
          s4 = invoke P Connect s3;
          s5 = invoke P (OnClose 1000 []) s4;
          s6 = invoke P Connect s5;
          s7 = invoke P (OnOpen (js ''wss://h'')) s6
      in s7\<lparr>url := js ''h'', isSecure := True, message := js ''{"a":1}'', isJson := True,
             urlLabel := []\<rparr>)\<close>

section \<open>Reachable states\<close>

text \<open>
  A socket handler runs only for a socket that \<open>connect\<close> has created, and
  \<open>connect\<close> keeps every socket it creates in \<open>wsRef\<close>, which nothing resets.  The
  other invocations are possible in every state.
\<close>

fun enabled :: "operation \<Rightarrow> state \<Rightarrow> bool" where
  "enabled Connect s = True"
| "enabled Disconnect s = True"
| "enabled Send s = True"
| "enabled (OnOpen target) s = (wsRef s \<noteq> None)"
| "enabled (OnMessage data) s = (wsRef s \<noteq> None)"
| "enabled (OnError m) s = (wsRef s \<noteq> None)"
| "enabled (OnClose code reason) s = (wsRef s \<noteq> None)"

text \<open>
  The states of a mounted \<open>App\<close>: the user edits the inputs, and the handlers of this
  model run.
\<close>

inductive reachable :: "platform \<Rightarrow> state \<Rightarrow> bool" for P :: platform where
  mounted: "reachable P initial"
| edited: "reachable P s \<Longrightarrow>
     reachable P (s\<lparr>url := u, isSecure := b, message := m, isJson := j, urlLabel := l\<rparr>)"
| invoked: "reachable P s \<Longrightarrow> enabled op s \<Longrightarrow> reachable P (invoke P op s)"
| cleared: "reachable P s \<Longrightarrow> reachable P (clearLog P s)"
| saved: "reachable P s \<Longrightarrow> reachable P (saveCurrentUrl P s)"

section \<open>Basic facts\<close>

lemma js_Nil [simp]: "js [] = []"
  by (simp add: js_def)

lemma js_Cons_append_neq_Nil [simp]: "js (c # cs) @ x \<noteq> []"
  by (simp add: js_def)

lemma js_Cons_neq_Nil [simp]: "js (c # cs) \<noteq> []"
  by (simp add: js_def)

lemma trim_Nil [simp]: "trim [] = []"
  by (simp add: trim_def)

lemma trim_all_ws: "list_all isWhiteSpace u \<Longrightarrow> trim u = []"
proof -
  assume "list_all isWhiteSpace u"
  then have d: "dropWhile isWhiteSpace u = []" by (induction u) simp_all
  show ?thesis unfolding trim_def d by simp
qed

lemma startsWith_Nil [simp]: "startsWith [] (js (c # cs)) = False"
  by (simp add: startsWith_def js_def)

lemma protocolHint_neq_Nil [simp]: "protocolHint b \<noteq> []"
  by (simp add: protocolHint_def)

lemmas prims = setError_def setStatus_def setLog_def act_def addLog_def

section \<open>The parser consumes input\<close>

text \<open>
  Every parsing function that succeeds returns a strictly shorter rest (the number
  parts \<open>parse_digits\<close>, \<open>parse_frac\<close> and \<open>parse_exp\<close> may consume nothing).
\<close>

lemma parse_digits_shorter: "parse_digits cs = Some (ds, r) \<Longrightarrow> length r \<le> length cs"
  by (auto simp add: parse_digits_def length_dropWhile_le split: if_splits)

lemma parse_int_shorter: "parse_int cs = Some (i, r) \<Longrightarrow> length r < length cs"
  by (auto simp add: parse_int_def length_dropWhile_le less_Suc_eq_le split: list.splits if_splits)

lemma startsWith_length: "startsWith cs p \<Longrightarrow> length p \<le> length cs"
proof -
  assume "startsWith cs p"
  then have "length (take (length p) cs) = length p" by (simp add: startsWith_def)
  then show ?thesis by simp
qed


lemma parse_chars_shorter:
  "parse_chars acc cs = Some (str, r) \<Longrightarrow> length r < length cs"
proof (induction acc cs rule: parse_chars.induct)
  case (1 acc)
  then show ?case by simp
next
  case (2 acc c cs)
  show ?case
  proof (cases "c = 0x22")
    case True
    with 2(4) show ?thesis by simp
  next
    case q: False
    show ?thesis
    proof (cases "c = 0x5C")
      case False
      with q 2(4) have lt: "\<not> c < 0x20" and rec: "parse_chars (acc @ [c]) cs = Some (str, r)"
        by (simp_all split: if_splits)
      from 2(3) [OF q False lt rec] show ?thesis by simp
    next
      case bs: True
      show ?thesis
      proof (cases cs)
        case Nil
        with q bs 2(4) show ?thesis by simp
      next
        case (Cons e es)
        show ?thesis
        proof (cases "e = 0x75")
          case False
          with q bs Cons 2(4) obtain x where x: "unescape e = Some x"
            and rec: "parse_chars (acc @ [x]) es = Some (str, r)"
            by (auto split: option.splits)
          from 2(2) [OF q bs Cons False x rec] Cons show ?thesis by simp
        next
          case u: True
          with q bs Cons 2(4) obtain a b c' d rest h where
            es: "es = a # b # c' # d # rest" and h: "hex4 a b c' d = Some h"
            and rec: "parse_chars (acc @ [h]) rest = Some (str, r)"
            by (auto split: list.splits option.splits)
          have "length r < length rest"
            using 2(1) [of e es a "b # c' # d # rest" b "c' # d # rest" c' "d # rest" d rest h]
              q bs Cons u es h rec
            by simp
          with Cons es show ?thesis by simp
        qed
      qed
    qed
  qed
qed


lemma parse_frac_shorter: "parse_frac cs = Some (f, r) \<Longrightarrow> length r \<le> length cs"
proof (cases cs)
  case Nil
  then show "parse_frac cs = Some (f, r) \<Longrightarrow> length r \<le> length cs"
    by (simp add: parse_frac_def)
next
  case (Cons p t)
  assume a: "parse_frac cs = Some (f, r)"
  show "length r \<le> length cs"
  proof (cases "p = 0x2E")
    case False
    with a Cons show ?thesis by (simp add: parse_frac_def)
  next
    case True
    with a Cons obtain ds where "parse_digits t = Some (ds, r)"
      by (auto simp add: parse_frac_def split: option.splits)
    then have "length r \<le> length t" by (rule parse_digits_shorter)
    with Cons show ?thesis by simp
  qed
qed

lemma parse_exp_shorter: "parse_exp cs = Some (e, r) \<Longrightarrow> length r \<le> length cs"
proof (cases cs)
  case Nil
  then show "parse_exp cs = Some (e, r) \<Longrightarrow> length r \<le> length cs"
    by (simp add: parse_exp_def)
next
  case (Cons x t)
  assume a: "parse_exp cs = Some (e, r)"
  show "length r \<le> length cs"
  proof (cases "x = 0x65 \<or> x = 0x45")
    case False
    with a Cons show ?thesis by (simp add: parse_exp_def)
  next
    case True
    show ?thesis
    proof (cases t)
      case Nil
      with a Cons True show ?thesis by (simp add: parse_exp_def)
    next
      case t: (Cons sg t')
      show ?thesis
      proof (cases "sg = 0x2B \<or> sg = 0x2D")
        case True
        with a Cons \<open>x = 0x65 \<or> x = 0x45\<close> t obtain ds where "parse_digits t' = Some (ds, r)"
          by (auto simp add: parse_exp_def split: option.splits)
        then have "length r \<le> length t'" by (rule parse_digits_shorter)
        with Cons t show ?thesis by simp
      next
        case False
        with a Cons \<open>x = 0x65 \<or> x = 0x45\<close> t obtain ds where "parse_digits t = Some (ds, r)"
          by (auto simp add: parse_exp_def split: option.splits)
        then have "length r \<le> length t" by (rule parse_digits_shorter)
        with Cons show ?thesis by simp
      qed
    qed
  qed
qed

lemma parse_number_shorter:
  assumes "parse_number cs = Some (lit, r)"
  shows "length r < length cs"
proof -
  define r0 where "r0 = (case cs of [] \<Rightarrow> cs | m # t \<Rightarrow> if m = 0x2D then t else cs)"
  have r0: "length r0 \<le> length cs"
    by (simp add: r0_def split: list.splits)
  from assms obtain i r1 f r2 e where
    i: "parse_int r0 = Some (i, r1)" and f: "parse_frac r1 = Some (f, r2)"
    and e: "parse_exp r2 = Some (e, r)"
    by (auto simp add: parse_number_def r0_def split: list.splits if_splits option.splits)
  from i have "length r1 < length r0" by (rule parse_int_shorter)
  moreover from f have "length r2 \<le> length r1" by (rule parse_frac_shorter)
  moreover from e have "length r \<le> length r2" by (rule parse_exp_shorter)
  ultimately show ?thesis using r0 by simp
qed

lemma parse_literal_shorter:
  assumes "parse_literal cs = Some (v, r)"
  shows "length r < length cs"
proof -
  consider (null) "startsWith cs (js ''null'')" "r = drop 4 cs"
    | (true) "startsWith cs (js ''true'')" "r = drop 4 cs"
    | (false) "startsWith cs (js ''false'')" "r = drop 5 cs"
    using assms by (auto simp add: parse_literal_def split: if_splits)
  then show ?thesis
  proof cases
    case null
    from startsWith_length [OF null(1)] null(2) show ?thesis by (simp add: js_def)
  next
    case true
    from startsWith_length [OF true(1)] true(2) show ?thesis by (simp add: js_def)
  next
    case false
    from startsWith_length [OF false(1)] false(2) show ?thesis by (simp add: js_def)
  qed
qed

lemma skipWs_length: "length (skipWs cs) \<le> length cs"
  by (simp add: skipWs_def length_dropWhile_le)

lemma parse_value_first:
  assumes "parse_value cs = Some (v, r)"
  obtains c t where "skipWs cs = c # t"
  using assms by (cases "skipWs cs") (simp_all add: parse_value.simps)

lemma parse_shorter:
  "(\<forall>v r. parse_value cs = Some (v, r) \<longrightarrow> length r < length cs)"
  "(\<forall>v r. parse_elements acc cs' = Some (v, r) \<longrightarrow> length r < length cs')"
  "(\<forall>v r. parse_members macc cs'' = Some (v, r) \<longrightarrow> length r < length cs'')"
proof (induction cs and acc cs' and macc cs'' rule: parse_value_parse_elements_parse_members.induct)
  case (1 cs)
  show ?case
  proof (intro allI impI)
    fix v r
    assume a: "parse_value cs = Some (v, r)"
    from a obtain c t where ct: "skipWs cs = c # t" by (rule parse_value_first)
    have lt: "length t < length cs" using ct by (rule skipWs_Cons_length)
    have le: "length (c # t) \<le> length cs" using skipWs_length [of cs] ct by simp
    consider (arr) "c = 0x5B" | (obj) "c \<noteq> 0x5B" "c = 0x7B"
      | (str) "c \<noteq> 0x5B" "c \<noteq> 0x7B" "c = 0x22"
      | (num) "c \<noteq> 0x5B" "c \<noteq> 0x7B" "c \<noteq> 0x22" "c = 0x2D \<or> isDigit c"
      | (lit) "c \<noteq> 0x5B" "c \<noteq> 0x7B" "c \<noteq> 0x22" "\<not> (c = 0x2D \<or> isDigit c)"
      by blast
    then show "length r < length cs"
    proof cases
      case arr
      from a ct arr obtain d r' where dr: "skipWs t = d # r'"
        by (cases "skipWs t") (simp_all add: parse_value.simps)
      show ?thesis
      proof (cases "d = 0x5D")
        case True
        with a ct arr dr have "r = r'" by (simp add: parse_value.simps)
        with skipWs_Cons_length [OF dr] lt show ?thesis by simp
      next
        case False
        with a ct arr dr have "parse_elements [] t = Some (v, r)"
          by (simp add: parse_value.simps)
        with 1(1) [OF ct arr dr False] have "length r < length t" by blast
        with lt show ?thesis by simp
      qed
    next
      case obj
      from a ct obj obtain d r' where dr: "skipWs t = d # r'"
        by (cases "skipWs t") (simp_all add: parse_value.simps)
      show ?thesis
      proof (cases "d = 0x7D")
        case True
        with a ct obj dr have "r = r'" by (simp add: parse_value.simps)
        with skipWs_Cons_length [OF dr] lt show ?thesis by simp
      next
        case False
        with a ct obj dr have "parse_members [] t = Some (v, r)"
          by (simp add: parse_value.simps)
        with 1(2) [OF ct obj dr False] have "length r < length t" by blast
        with lt show ?thesis by simp
      qed
    next
      case str
      with a ct obtain s where "parse_chars [] t = Some (s, r)"
        by (auto simp add: parse_value.simps split: option.splits)
      then have "length r < length t" by (rule parse_chars_shorter)
      with lt show ?thesis by simp
    next
      case num
      with a ct obtain l where "parse_number (c # t) = Some (l, r)"
        by (auto simp add: parse_value.simps split: option.splits)
      then have "length r < length (c # t)" by (rule parse_number_shorter)
      with le show ?thesis by simp
    next
      case lit
      with a ct have "parse_literal (c # t) = Some (v, r)"
        by (auto simp add: parse_value.simps)
      then have "length r < length (c # t)" by (rule parse_literal_shorter)
      with le show ?thesis by simp
    qed
  qed
next
  case (2 acc cs)
  show ?case
  proof (intro allI impI)
    fix v r
    assume a: "parse_elements acc cs = Some (v, r)"
    then obtain x y where xy: "parse_value cs = Some (x, y)"
      by (cases "parse_value cs") (auto simp add: parse_elements.simps)
    from a xy have g: "length y < length cs"
      by (simp add: parse_elements.simps split: if_splits)
    from a xy g obtain d r' where dr: "skipWs y = d # r'"
      by (cases "skipWs y") (simp_all add: parse_elements.simps)
    have l': "length r' < length y" using dr by (rule skipWs_Cons_length)
    show "length r < length cs"
    proof (cases "d = 0x2C")
      case True
      with a xy g dr have "parse_elements (acc @ [x]) r' = Some (v, r)"
        by (simp add: parse_elements.simps)
      with 2(2) [OF xy refl g dr True] have "length r < length r'" by blast
      with l' g show ?thesis by simp
    next
      case False
      with a xy g dr have "r = r'"
        by (simp add: parse_elements.simps split: if_splits)
      with l' g show ?thesis by simp
    qed
  qed
next
  case (3 macc cs)
  show ?case
  proof (intro allI impI)
    fix v r
    assume a: "parse_members macc cs = Some (v, r)"
    then obtain q t where qt: "skipWs cs = q # t"
      by (cases "skipWs cs") (simp_all add: parse_members.simps)
    from a qt have q: "\<not> q \<noteq> 0x22"
      by (simp add: parse_members.simps split: if_splits)
    from a qt q obtain k r1 where k: "parse_chars [] t = Some (k, r1)"
      by (cases "parse_chars [] t") (auto simp add: parse_members.simps)
    from a qt q k obtain col r2 where c: "skipWs r1 = col # r2"
      by (cases "skipWs r1") (simp_all add: parse_members.simps)
    from a qt q k c have g: "\<not> (col \<noteq> 0x3A \<or> \<not> length r2 < length cs)"
      by (auto simp add: parse_members.simps split: if_splits)
    from a qt q k c g obtain x r3 where x: "parse_value r2 = Some (x, r3)"
      by (cases "parse_value r2") (auto simp add: parse_members.simps)
    from a qt q k c g x have g3: "length r3 < length r2"
      by (auto simp add: parse_members.simps split: if_splits)
    from a qt q k c g x g3 obtain d r4 where d: "skipWs r3 = d # r4"
      by (cases "skipWs r3") (auto simp add: parse_members.simps)
    have l4: "length r4 < length r3" using d by (rule skipWs_Cons_length)
    from g have g2: "length r2 < length cs" by simp
    show "length r < length cs"
    proof (cases "d = 0x2C")
      case True
      with a qt q k c g x g3 d have "parse_members (obj_put k x macc) r4 = Some (v, r)"
        by (auto simp add: parse_members.simps)
      with 3(2) [OF qt q k refl c g x refl g3 d True] have "length r < length r4" by blast
      with l4 g3 g2 show ?thesis by simp
    next
      case False
      with a qt q k c g x g3 d have "r = r4"
        by (auto simp add: parse_members.simps split: if_splits)
      with l4 g3 g2 show ?thesis by simp
    qed
  qed
qed


lemma parse_value_shorter: "parse_value cs = Some (v, r) \<Longrightarrow> length r < length cs"
  using parse_shorter(1) [of cs] by blast

lemma parse_elements_unguarded:
  "parse_elements acc cs =
     (case parse_value cs of
        None \<Rightarrow> None
      | Some (v, r) \<Rightarrow>
          (case skipWs r of
             [] \<Rightarrow> None
           | d # r' \<Rightarrow>
               if d = 0x2C then parse_elements (acc @ [v]) r'
               else if d = 0x5D then Some (JArray (acc @ [v]), r')
               else None))"
proof (cases "parse_value cs")
  case None
  then show ?thesis by (simp add: parse_elements.simps)
next
  case (Some p)
  obtain v r where p: "p = (v, r)" by (cases p)
  with Some have "length r < length cs" by (simp add: parse_value_shorter)
  with Some p show ?thesis by (simp add: parse_elements.simps)
qed

lemma parse_members_unguarded:
  "parse_members acc cs =
     (case skipWs cs of
        [] \<Rightarrow> None
      | q # r \<Rightarrow>
          if q \<noteq> 0x22 then None
          else
            (case parse_chars [] r of
               None \<Rightarrow> None
             | Some (k, r1) \<Rightarrow>
                 (case skipWs r1 of
                    [] \<Rightarrow> None
                  | col # r2 \<Rightarrow>
                      if col \<noteq> 0x3A then None
                      else
                        (case parse_value r2 of
                           None \<Rightarrow> None
                         | Some (v, r3) \<Rightarrow>
                             (case skipWs r3 of
                                [] \<Rightarrow> None
                              | d # r4 \<Rightarrow>
                                  if d = 0x2C then parse_members (obj_put k v acc) r4
                                  else if d = 0x7D
                                    then Some (JObject (obj_put k v acc), r4)
                                  else None)))))"
proof (cases "skipWs cs")
  case Nil
  then show ?thesis by (simp add: parse_members.simps)
next
  case (Cons q r)
  have lr: "length r < length cs" using Cons by (rule skipWs_Cons_length)
  show ?thesis
  proof (cases "parse_chars [] r")
    case None
    with Cons show ?thesis by (simp add: parse_members.simps)
  next
    case (Some p)
    obtain k r1 where p: "p = (k, r1)" by (cases p)
    with Some have l1: "length r1 < length r" by (simp add: parse_chars_shorter)
    show ?thesis
    proof (cases "skipWs r1")
      case Nil
      with Cons Some p show ?thesis by (simp add: parse_members.simps)
    next
      case c: (Cons col r2)
      have "length r2 < length r1" using c by (rule skipWs_Cons_length)
      with l1 lr have g: "length r2 < length cs" by simp
      show ?thesis
      proof (cases "parse_value r2")
        case None
        with Cons Some p c g show ?thesis by (simp add: parse_members.simps)
      next
        case v: (Some pv)
        obtain v r3 where pv: "pv = (v, r3)" by (cases pv)
        with v have "length r3 < length r2" by (simp add: parse_value_shorter)
        with Cons Some p c g v pv show ?thesis by (simp add: parse_members.simps)
      qed
    qed
  qed
qed

section \<open>URL normalization\<close>

text \<open>
  C1, as the code has it.  The empty input normalizes to the empty string.  Every
  other input is trimmed first: when the trimmed input starts with \<open>ws://\<close> or
  \<open>wss://\<close> the result is the trimmed input, whatever the secure flag; otherwise it is
  the trimmed input behind \<open>wss://\<close> (flag set) or \<open>ws://\<close> (flag not set).  The
  result for a non-empty input always starts with one of the two prefixes.
\<close>

theorem normalizeUrl_trimmed:
  "normalizeUrl secure [] = []
   \<and> (u \<noteq> [] \<and> \<not> startsWith (trim u) (js ''ws://'') \<and> \<not> startsWith (trim u) (js ''wss://'')
        \<longrightarrow> normalizeUrl secure u = (if secure then js ''wss://'' else js ''ws://'') @ trim u)
   \<and> (startsWith (trim u) (js ''ws://'') \<or> startsWith (trim u) (js ''wss://'')
        \<longrightarrow> normalizeUrl secure u = trim u)
   \<and> (u \<noteq> [] \<longrightarrow> startsWith (normalizeUrl secure u) (js ''ws://'')
                   \<or> startsWith (normalizeUrl secure u) (js ''wss://''))"
proof -
  have a: "normalizeUrl secure [] = []"
    by (simp add: normalizeUrl_def)
  have b: "u \<noteq> [] \<and> \<not> startsWith (trim u) (js ''ws://'')
             \<and> \<not> startsWith (trim u) (js ''wss://'')
        \<longrightarrow> normalizeUrl secure u = (if secure then js ''wss://'' else js ''ws://'') @ trim u"
    by (simp add: normalizeUrl_def protocolHint_def)
  have c: "startsWith (trim u) (js ''ws://'') \<or> startsWith (trim u) (js ''wss://'')
        \<longrightarrow> normalizeUrl secure u = trim u"
    by (cases "u = []") (auto simp add: normalizeUrl_def)
  have d: "u \<noteq> [] \<longrightarrow> startsWith (normalizeUrl secure u) (js ''ws://'')
                   \<or> startsWith (normalizeUrl secure u) (js ''wss://'')"
    by (auto simp add: normalizeUrl_def protocolHint_def startsWith_def js_def)
  from a b c d show ?thesis by blast
qed

theorem normalizeUrl_trimmed_witness:
  "normalizeUrl True (js '' echo.websocket.events '') = js ''wss://echo.websocket.events''
   \<and> normalizeUrl False (js ''wss://host '') = js ''wss://host''
   \<and> startsWith (normalizeUrl False (js ''host'')) (js ''ws://'')"
  using normalizeUrl_trimmed [of True "js '' echo.websocket.events ''"]
    normalizeUrl_trimmed [of False "js ''wss://host ''"]
    normalizeUrl_trimmed [of False "js ''host''"]
  by (simp add: js_def trim_def isWhiteSpace_def startsWith_def)

text \<open>
  C1 as stated fails twice.  The input \<open>ws://a\<close> followed by a space starts with
  \<open>ws://\<close>, and the result is not the input: the space is trimmed.  The empty input has
  neither prefix, and the result is not the protocol followed by the input.
\<close>

theorem normalizeUrl_not_verbatim:
  "startsWith (js ''ws://a '') (js ''ws://'')
   \<and> normalizeUrl True (js ''ws://a '') \<noteq> js ''ws://a ''
   \<and> \<not> startsWith [] (js ''ws://'') \<and> \<not> startsWith [] (js ''wss://'')
   \<and> normalizeUrl True [] \<noteq> js ''wss://'' @ []"
  by (simp add: normalizeUrl_def js_def trim_def isWhiteSpace_def startsWith_def)

section \<open>Connecting\<close>

text \<open>
  C6: \<open>connect\<close> with the empty string as URL leaves the status as it was (so
  Disconnected stays Disconnected), calls neither \<open>setStatus\<close> nor the WebSocket
  constructor, keeps \<open>wsRef\<close>, appends exactly one entry, of type system, and sets the
  error to a non-empty message.
\<close>

theorem connect_empty_url:
  "status (connect P (s\<lparr>url := []\<rparr>)) = status s
   \<and> trace (connect P (s\<lparr>url := []\<rparr>)) = trace s
   \<and> wsRef (connect P (s\<lparr>url := []\<rparr>)) = wsRef s
   \<and> log (connect P (s\<lparr>url := []\<rparr>)) =
       log s @ [\<lparr>entry_id = randomUUID P (tick s), entry_time = toLocaleTimeString P (tick s),
                  entry_type = SYSTEM, entry_text = js ''No URL provided.''\<rparr>]
   \<and> error (connect P (s\<lparr>url := []\<rparr>)) = js ''Please enter a valid WebSocket URL.''
   \<and> error (connect P (s\<lparr>url := []\<rparr>)) \<noteq> []"
  by (simp add: connect_def normalizeUrl_def prims)

lemma connect_returns:
  assumes "normalizeUrl (isSecure s) (url s) = t" and "t \<noteq> []"
    and "WebSocket_throws P t = None"
  shows "connect P s =
           s\<lparr>error := [],
             log := log s @ [\<lparr>entry_id = randomUUID P (tick s),
                               entry_time = toLocaleTimeString P (tick s),
                               entry_type = SYSTEM,
                               entry_text = js ''Connecting to '' @ t @ js '' ...''\<rparr>],
             tick := Suc (tick s),
             status := Connecting,
             trace := trace s @ [SetStatus Connecting, NewWebSocket t],
             wsRef := Some (Suc (length (trace s)))\<rparr>"
  using assms by (simp add: connect_def Let_def prims)

lemma connect_throws:
  assumes "normalizeUrl (isSecure s) (url s) = t" and "t \<noteq> []"
    and "WebSocket_throws P t = Some m"
  shows "connect P s =
           s\<lparr>error := js ''Failed to connect: '' @ m,
             log := log s @ [\<lparr>entry_id = randomUUID P (tick s),
                               entry_time = toLocaleTimeString P (tick s),
                               entry_type = SYSTEM,
                               entry_text = js ''Connecting to '' @ t @ js '' ...''\<rparr>,
                             \<lparr>entry_id = randomUUID P (Suc (tick s)),
                               entry_time = toLocaleTimeString P (Suc (tick s)),
                               entry_type = SYSTEM,
                               entry_text = js ''Failed to connect: '' @ m\<rparr>],
             tick := Suc (Suc (tick s)),
             status := Disconnected,
             trace := trace s @ [SetStatus Connecting, NewWebSocket t, SetStatus Disconnected]\<rparr>"
  using assms by (simp add: connect_def Let_def prims)

lemma connect_log_length:
  "length (log (connect P s)) =
     length (log s) +
       (if normalizeUrl (isSecure s) (url s) \<noteq> []
           \<and> WebSocket_throws P (normalizeUrl (isSecure s) (url s)) \<noteq> None
        then 2 else 1)"
proof (cases "normalizeUrl (isSecure s) (url s) = []")
  case True
  then show ?thesis by (simp add: connect_def prims)
next
  case False
  show ?thesis
  proof (cases "WebSocket_throws P (normalizeUrl (isSecure s) (url s))")
    case None
    show ?thesis
      unfolding connect_returns [OF refl False None] using False None by simp
  next
    case (Some m)
    show ?thesis
      unfolding connect_throws [OF refl False Some] using False Some by simp
  qed
qed

text \<open>
  C10: for a non-empty URL made of white space only, normalization yields the bare
  protocol prefix (\<open>wss://\<close> with the secure flag, \<open>ws://\<close> without), which is not
  empty.  So \<open>connect\<close> does not take the empty-URL branch: it appends the entry
  \<open>Connecting to\<close> the prefix, calls \<open>setStatus('connecting')\<close> and then the WebSocket
  constructor with the prefix.  The status it leaves is Connecting when the
  constructor returns, and Disconnected (set by the catch clause) when it throws.
\<close>

theorem connect_whitespace_url:
  assumes "u \<noteq> []" and "list_all isWhiteSpace u"
  shows "normalizeUrl secure u = protocolHint secure
         \<and> protocolHint secure = (if secure then js ''wss://'' else js ''ws://'')
         \<and> normalizeUrl secure u \<noteq> []
         \<and> trace (connect P (s\<lparr>url := u, isSecure := secure\<rparr>)) =
             trace s @ [SetStatus Connecting, NewWebSocket (protocolHint secure)]
               @ (case WebSocket_throws P (protocolHint secure) of
                    None \<Rightarrow> []
                  | Some m \<Rightarrow> [SetStatus Disconnected])
         \<and> take (Suc (length (log s))) (log (connect P (s\<lparr>url := u, isSecure := secure\<rparr>))) =
             log s @ [\<lparr>entry_id = randomUUID P (tick s),
                        entry_time = toLocaleTimeString P (tick s),
                        entry_type = SYSTEM,
                        entry_text = js ''Connecting to '' @ protocolHint secure @ js '' ...''\<rparr>]
         \<and> status (connect P (s\<lparr>url := u, isSecure := secure\<rparr>)) =
             (case WebSocket_throws P (protocolHint secure) of
                None \<Rightarrow> Connecting
              | Some m \<Rightarrow> Disconnected)"
proof -
  let ?s = "s\<lparr>url := u, isSecure := secure\<rparr>"
  let ?t = "protocolHint secure"
  have n: "normalizeUrl secure u = ?t"
    using assms by (simp add: normalizeUrl_def trim_all_ws)
  then have n': "normalizeUrl (isSecure ?s) (url ?s) = ?t" by simp
  have p: "?t = (if secure then js ''wss://'' else js ''ws://'')"
    by (simp add: protocolHint_def)
  have ne: "?t \<noteq> []" by simp
  show ?thesis
  proof (cases "WebSocket_throws P ?t")
    case None
    show ?thesis
      unfolding connect_returns [OF n' ne None] n
      using p None by simp
  next
    case (Some m)
    show ?thesis
      unfolding connect_throws [OF n' ne Some] n
      using p Some by simp
  qed
qed

theorem connect_whitespace_url_witness:
  "[0x20 :: code_unit] \<noteq> [] \<and> list_all isWhiteSpace [0x20]
   \<and> normalizeUrl True [0x20] = js ''wss://''
   \<and> trace (connect example_platform (initial\<lparr>url := [0x20], isSecure := True\<rparr>)) =
        [SetStatus Connecting, NewWebSocket (js ''wss://''), SetStatus Disconnected]"
  using connect_whitespace_url [of "[0x20]" True example_platform initial]
  by (simp add: isWhiteSpace_def protocolHint_def example_platform_def initial_def)

section \<open>Sending\<close>

text \<open>
  \<open>sendMessage\<close> changes neither the status nor \<open>wsRef\<close>.  In every reachable
  state with status Connected there is a socket in \<open>wsRef\<close>.
\<close>

lemma send_status: "status (sendMessage P s) = status s"
  by (simp add: sendMessage_def Let_def prims split: option.splits)

lemma connect_status_wsRef:
  "(status (connect P s) = Connected \<longrightarrow> status s = Connected)
   \<and> (wsRef s \<noteq> None \<longrightarrow> wsRef (connect P s) \<noteq> None)"
  by (simp add: connect_def Let_def prims split: option.splits)

lemma send_wsRef: "wsRef (sendMessage P s) = wsRef s"
  by (simp add: sendMessage_def Let_def prims split: option.splits)

lemma connected_has_socket:
  "reachable P s \<Longrightarrow> status s = Connected \<Longrightarrow> wsRef s \<noteq> None"
proof (induction rule: reachable.induct)
  case mounted
  then show ?case by (simp add: initial_def)
next
  case (edited s u b m j l)
  then show ?case by simp
next
  case (invoked s op)
  show ?case
  proof (cases op)
    case Connect
    with invoked connect_status_wsRef [of P s] show ?thesis by simp
  next
    case Disconnect
    with invoked show ?thesis by (simp add: disconnect_def prims)
  next
    case Send
    with invoked show ?thesis by (simp add: send_wsRef send_status)
  next
    case (OnOpen target)
    with invoked show ?thesis by (simp add: onopen_def prims)
  next
    case (OnMessage data)
    with invoked show ?thesis by (simp add: onmessage_def prims)
  next
    case (OnError m)
    with invoked show ?thesis by (simp add: onerror_def prims)
  next
    case (OnClose code reason)
    with invoked show ?thesis by (simp add: onclose_def prims)
  qed
next
  case (cleared s)
  then show ?case by (simp add: clearLog_def prims)
next
  case (saved s)
  have "status (saveCurrentUrl P s) = status s" "wsRef (saveCurrentUrl P s) = wsRef s"
    by (simp_all add: saveCurrentUrl_def Let_def)
  with saved show ?case by simp
qed

text \<open>
  C5: in a state whose status is not Connected, \<open>sendMessage\<close> makes no call on the
  socket at all, whatever the message: the trace stays as it was, and so holds no new
  \<open>send\<close>.
\<close>

theorem send_not_connected:
  assumes "status s \<noteq> Connected"
  shows "trace (sendMessage P s) = trace s
         \<and> list_all (\<lambda>a. \<not> (\<exists>w d. a = WsSend w d))
              (drop (length (trace s)) (trace (sendMessage P s)))"
  using assms by (simp add: sendMessage_def prims)

theorem send_not_connected_witness:
  "status initial \<noteq> Connected
   \<and> trace (sendMessage example_platform initial) = trace initial"
  using send_not_connected [of initial example_platform]
  by (simp add: initial_def)

lemmas json_eval =
  JSON_parse_def skipWs_def isJsonWs_def isDigit_def parse_number_def parse_int_def
  parse_frac_def parse_exp_def parse_digits_def parse_literal_def startsWith_def
  obj_put_def isArrayIndex_def
  parse_value.simps parse_elements.simps parse_members.simps

lemma gap_2: "replicate 2 (x :: code_unit) = [x, x]"
  by (simp add: numeral_2_eq_2)

lemma parse_example: \<open>JSON_parse (js ''{"a":1}'') = Some (JObject [(js ''a'', JNumber (js ''1''))])\<close>
  by (simp add: js_def json_eval)

lemma compact_example:
  \<open>JSON_stringify P (JObject [(js ''a'', JNumber (js ''1''))]) 0 = js ''{"a":1}''\<close>
  by (simp add: js_def JSON_stringify_def QuoteJSONString_def number_text_def isDigit_def
        isLeadingSurrogate_def isTrailingSurrogate_def)

lemma pretty_example:
  \<open>JSON_stringify P (JObject [(js ''a'', JNumber (js ''1''))]) 2
     = [0x7B, 0x0A] @ js ''  "a": 1'' @ [0x0A, 0x7D]\<close>
  by (simp add: js_def JSON_stringify_def QuoteJSONString_def number_text_def isDigit_def
        isLeadingSurrogate_def isTrailingSurrogate_def gap_2)

lemma trim_example: \<open>trim (js ''{"a":1}'') = js ''{"a":1}''\<close>
  by (simp add: js_def trim_def isWhiteSpace_def)

lemma parse_invalid: \<open>JSON_parse (js ''{invalid'') = None\<close>
  by (simp add: js_def json_eval)

lemma parse_blank: \<open>JSON_parse (js '' '') = None\<close>
  by (simp add: js_def json_eval)

lemma normalize_h: "normalizeUrl True (js ''h'') = js ''wss://h''"
  by (simp add: normalizeUrl_def protocolHint_def js_def trim_def isWhiteSpace_def
        startsWith_def)

lemma accepts_h: "WebSocket_throws connecting_platform (js ''wss://h'') = None"
  by (simp add: connecting_platform_def example_platform_def js_def)

lemma connect_h:
  assumes "url s = js ''h''" and "isSecure s"
  shows "status (connect connecting_platform s) = Connecting
         \<and> wsRef (connect connecting_platform s) = Some (Suc (length (trace s)))
         \<and> length (trace (connect connecting_platform s)) = length (trace s) + 2
         \<and> url (connect connecting_platform s) = js ''h''
         \<and> isSecure (connect connecting_platform s)"
proof -
  have n: "normalizeUrl (isSecure s) (url s) = js ''wss://h''"
    using assms by (simp add: normalize_h)
  have ne: "js ''wss://h'' \<noteq> []" by simp
  show ?thesis
    unfolding connect_returns [OF n ne accepts_h] using assms by simp
qed

lemma onopen_fields:
  "status (onopen P t s) = Connected \<and> wsRef (onopen P t s) = wsRef s
   \<and> length (trace (onopen P t s)) = length (trace s) + 1
   \<and> url (onopen P t s) = url s \<and> isSecure (onopen P t s) = isSecure s"
  by (simp add: onopen_def prims)

lemma onclose_fields:
  "status (onclose P c r s) = Disconnected \<and> wsRef (onclose P c r s) = wsRef s
   \<and> length (trace (onclose P c r s)) = length (trace s) + 1
   \<and> url (onclose P c r s) = url s \<and> isSecure (onclose P c r s) = isSecure s"
  by (simp add: onclose_def prims)

lemma disconnect_fields:
  "wsRef s = Some w \<Longrightarrow>
   status (disconnect P s) = Disconnected \<and> wsRef (disconnect P s) = wsRef s
   \<and> length (trace (disconnect P s)) = length (trace s) + 2
   \<and> url (disconnect P s) = url s \<and> isSecure (disconnect P s) = isSecure s"
  by (simp add: disconnect_def prims)

lemma superseded_open_fields:
  "reachable connecting_platform superseded_open"
  "status superseded_open = Connected"
  "wsRef superseded_open = Some 9"
  "isJson superseded_open"
  \<open>message superseded_open = js ''{"a":1}''\<close>
  "length (trace superseded_open) = 11"
proof -
  let ?P = connecting_platform
  define s0 where "s0 = initial\<lparr>url := js ''h'', isSecure := True, message := [],
                                isJson := False, urlLabel := []\<rparr>"
  define s1 where "s1 = invoke ?P Connect s0"
  define s2 where "s2 = invoke ?P (OnOpen (js ''wss://h'')) s1"
  define s3 where "s3 = invoke ?P Disconnect s2"
  define s4 where "s4 = invoke ?P Connect s3"
  define s5 where "s5 = invoke ?P (OnClose 1000 []) s4"
  define s6 where "s6 = invoke ?P Connect s5"
  define s7 where "s7 = invoke ?P (OnOpen (js ''wss://h'')) s6"
  have e: \<open>superseded_open =
             s7\<lparr>url := js ''h'', isSecure := True, message := js ''{"a":1}'', isJson := True,
                urlLabel := []\<rparr>\<close>
    by (simp only: superseded_open_def Let_def s0_def s1_def s2_def s3_def s4_def s5_def
          s6_def s7_def)
  have r0: "reachable ?P s0"
    unfolding s0_def by (rule reachable.edited [OF reachable.mounted])
  have v0: "url s0 = js ''h''" "isSecure s0" "length (trace s0) = 0"
    by (simp_all add: s0_def initial_def)
  have v1: "wsRef s1 = Some 1" "length (trace s1) = 2" "url s1 = js ''h''" "isSecure s1"
    using connect_h [OF v0(1,2)] v0(3) by (simp_all add: s1_def)
  have r1: "reachable ?P s1"
    unfolding s1_def by (rule reachable.invoked [OF r0]) simp
  have v2: "wsRef s2 = Some 1" "length (trace s2) = 3" "url s2 = js ''h''" "isSecure s2"
    using onopen_fields [of ?P "js ''wss://h''" s1] v1 by (simp_all add: s2_def)
  have r2: "reachable ?P s2"
    unfolding s2_def by (rule reachable.invoked [OF r1]) (simp add: v1)
  have v3: "wsRef s3 = Some 1" "length (trace s3) = 5" "url s3 = js ''h''" "isSecure s3"
    using disconnect_fields [OF v2(1), of ?P] v2 by (simp_all add: s3_def)
  have r3: "reachable ?P s3"
    unfolding s3_def by (rule reachable.invoked [OF r2]) simp
  have v4: "wsRef s4 = Some 6" "length (trace s4) = 7" "url s4 = js ''h''" "isSecure s4"
    using connect_h [OF v3(3,4)] v3(2) by (simp_all add: s4_def)
  have r4: "reachable ?P s4"
    unfolding s4_def by (rule reachable.invoked [OF r3]) simp
  have v5: "wsRef s5 = Some 6" "length (trace s5) = 8" "url s5 = js ''h''" "isSecure s5"
    using onclose_fields [of ?P 1000 "[]" s4] v4 by (simp_all add: s5_def)
  have r5: "reachable ?P s5"
    unfolding s5_def by (rule reachable.invoked [OF r4]) (simp add: v4)
  have v6: "wsRef s6 = Some 9" "length (trace s6) = 10" "url s6 = js ''h''" "isSecure s6"
    using connect_h [OF v5(3,4)] v5(2) by (simp_all add: s6_def)
  have r6: "reachable ?P s6"
    unfolding s6_def by (rule reachable.invoked [OF r5]) simp
  have v7: "status s7 = Connected" "wsRef s7 = Some 9" "length (trace s7) = 11"
    using onopen_fields [of ?P "js ''wss://h''" s6] v6 by (simp_all add: s7_def)
  have r7: "reachable ?P s7"
    unfolding s7_def by (rule reachable.invoked [OF r6]) (simp add: v6)
  show "reachable connecting_platform superseded_open"
    unfolding e by (rule reachable.edited [OF r7])
  show "status superseded_open = Connected" "wsRef superseded_open = Some 9"
    "isJson superseded_open" \<open>message superseded_open = js ''{"a":1}''\<close>
    "length (trace superseded_open) = 11"
    using v7 by (simp_all add: e)
qed

text \<open>
  C3, as the code has it.  With status Connected, a socket \<open>w\<close> in \<open>wsRef\<close> (there
  is one in every reachable state with that status, \<open>connected_has_socket\<close>), JSON
  mode on and the message \<open>{"a":1}\<close>, the one call \<open>sendMessage\<close> makes on the
  socket is \<open>send\<close> with the compact text \<open>{"a":1}\<close>, and it appends exactly one
  entry.  When that \<open>send\<close> returns, the entry is of type sent, its text is the
  message's value printed with two spaces of indentation (an opening brace, a line
  with two spaces and \<open>"a": 1\<close>, a closing brace), and no error is set.  When that
  \<open>send\<close> throws, the entry is of type system with the text \<open>Send failed:\<close> and the
  exception's message, which is also the error.
\<close>

theorem send_json_example:
  assumes "status s = Connected" and "wsRef s = Some w" and "isJson s"
    and \<open>message s = js ''{"a":1}''\<close>
  shows \<open>trace (sendMessage P s) = trace s @ [WsSend w (js ''{"a":1}'')]
         \<and> js ''{"a":1}'' = JSON_stringify P (JObject [(js ''a'', JNumber (js ''1''))]) 0
         \<and> JSON_parse (message s) = Some (JObject [(js ''a'', JNumber (js ''1''))])
         \<and> [0x7B, 0x0A] @ js ''  "a": 1'' @ [0x0A, 0x7D]
             = JSON_stringify P (JObject [(js ''a'', JNumber (js ''1''))]) 2
         \<and> log (sendMessage P s) =
             log s @ [\<lparr>entry_id = randomUUID P (tick s),
                        entry_time = toLocaleTimeString P (tick s),
                        entry_type =
                          (case send_throws P (length (trace s)) w (js ''{"a":1}'') of
                             None \<Rightarrow> SENT
                           | Some m \<Rightarrow> SYSTEM),
                        entry_text =
                          (case send_throws P (length (trace s)) w (js ''{"a":1}'') of
                             None \<Rightarrow> [0x7B, 0x0A] @ js ''  "a": 1'' @ [0x0A, 0x7D]
                           | Some m \<Rightarrow> js ''Send failed: '' @ m)\<rparr>]
         \<and> error (sendMessage P s) =
             (case send_throws P (length (trace s)) w (js ''{"a":1}'') of
                None \<Rightarrow> []
              | Some m \<Rightarrow> js ''Send failed: '' @ m)
         \<and> status (sendMessage P s) = Connected\<close>
proof (cases \<open>send_throws P (length (trace s)) w (js ''{"a":1}'')\<close>)
  case None
  with assms show ?thesis
    by (simp add: sendMessage_def Let_def prims parse_example compact_example pretty_example
          trim_example)
next
  case (Some m)
  with assms show ?thesis
    by (simp add: sendMessage_def Let_def prims parse_example compact_example pretty_example
          trim_example)
qed

theorem send_json_example_witness:
  \<open>status superseded_open = Connected
   \<and> wsRef superseded_open = Some 9
   \<and> isJson superseded_open
   \<and> message superseded_open = js ''{"a":1}''
   \<and> trace (sendMessage example_platform superseded_open)
       = trace superseded_open @ [WsSend 9 (js ''{"a":1}'')]
   \<and> map entry_type (drop (length (log superseded_open))
          (log (sendMessage example_platform superseded_open))) = [SENT]
   \<and> map entry_text (drop (length (log superseded_open))
          (log (sendMessage example_platform superseded_open)))
       = [[0x7B, 0x0A] @ js ''  "a": 1'' @ [0x0A, 0x7D]]
   \<and> error (sendMessage example_platform superseded_open) = []\<close>
proof -
  note c = send_json_example [OF superseded_open_fields(2-5), of example_platform]
  have t: \<open>send_throws example_platform (length (trace superseded_open)) 9 (js ''{"a":1}'')
             = None\<close>
    by (simp add: example_platform_def)
  have c1: \<open>trace (sendMessage example_platform superseded_open)
       = trace superseded_open @ [WsSend 9 (js ''{"a":1}'')]\<close>
    using c by (rule conjunct1)
  have c5: \<open>log (sendMessage example_platform superseded_open) =
             log superseded_open @ [\<lparr>entry_id = randomUUID example_platform (tick superseded_open),
                        entry_time = toLocaleTimeString example_platform (tick superseded_open),
                        entry_type = SENT,
                        entry_text = [0x7B, 0x0A] @ js ''  "a": 1'' @ [0x0A, 0x7D]\<rparr>]\<close>
    using c unfolding t by simp
  have c6: "error (sendMessage example_platform superseded_open) = []"
    using c unfolding t by simp
  show ?thesis
    using superseded_open_fields(2-5) c1 c5 c6 by simp
qed

text \<open>
  C3 as stated fails when the socket in \<open>wsRef\<close> is not open yet.  In the reachable
  state \<open>superseded_open\<close> the status is Connected, and sending \<open>{"a":1}\<close> in JSON
  mode appends a system entry and no entry of type sent.
\<close>

theorem send_json_transport_throws:
  \<open>reachable connecting_platform superseded_open
   \<and> status superseded_open = Connected
   \<and> isJson superseded_open
   \<and> message superseded_open = js ''{"a":1}''
   \<and> map entry_type (drop (length (log superseded_open))
          (log (sendMessage connecting_platform superseded_open))) = [SYSTEM]
   \<and> error (sendMessage connecting_platform superseded_open)
        = js ''Send failed: Still in CONNECTING state.''\<close>
proof -
  have t: \<open>send_throws connecting_platform (length (trace superseded_open)) 9 (js ''{"a":1}'')
             = Some (js ''Still in CONNECTING state.'')\<close>
    by (simp add: connecting_platform_def)
  have l: \<open>log (sendMessage connecting_platform superseded_open) =
             log superseded_open @
               [\<lparr>entry_id = randomUUID connecting_platform (tick superseded_open),
                 entry_time = toLocaleTimeString connecting_platform (tick superseded_open),
                 entry_type = SYSTEM,
                 entry_text = js ''Send failed: '' @ js ''Still in CONNECTING state.''\<rparr>]\<close>
    \<open>error (sendMessage connecting_platform superseded_open)
       = js ''Send failed: '' @ js ''Still in CONNECTING state.''\<close>
    using superseded_open_fields(2-5) t
    by (simp_all add: sendMessage_def Let_def prims parse_example compact_example
          pretty_example trim_example)
  have j: "js ''Send failed: '' @ js ''Still in CONNECTING state.''
            = js ''Send failed: Still in CONNECTING state.''"
    by (simp add: js_def)
  show ?thesis
    using superseded_open_fields(1,2,4,5) l j by simp
qed

text \<open>
  C4, as the code has it.  In JSON mode, for every message that \<open>JSON.parse\<close>
  rejects, \<open>sendMessage\<close> makes no call on the socket and appends no entry of type
  sent.  With status Connected, a socket, and a message that is not blank, the error
  is \<open>Invalid JSON:\<close> followed by the parser's message and one system entry is
  appended.  Without connection the error is the not-connected message.  With
  connection and a blank message (empty or white space only) the call is ignored:
  the error stays empty and nothing is logged.
\<close>

theorem send_invalid_json:
  assumes "isJson s" and "JSON_parse (message s) = None"
  shows "trace (sendMessage P s) = trace s
         \<and> list_all (\<lambda>e. entry_type e = SYSTEM)
              (drop (length (log s)) (log (sendMessage P s)))
         \<and> (error (sendMessage P s) =
              (if status s = Connected \<and> wsRef s \<noteq> None
               then (if trim (message s) = [] then []
                     else js ''Invalid JSON: '' @ SyntaxError_message P (message s))
               else js ''Not connected to a WebSocket server.''))
         \<and> (error (sendMessage P s) = []
              \<longleftrightarrow> status s = Connected \<and> wsRef s \<noteq> None \<and> trim (message s) = [])
         \<and> length (log (sendMessage P s)) =
              (if error (sendMessage P s) = [] then length (log s) else Suc (length (log s)))"
  using assms
  by (auto simp add: sendMessage_def Let_def prims split: option.splits)

theorem send_invalid_json_witness:
  \<open>isJson (initial\<lparr>status := Connected, wsRef := Some 0, isJson := True,
                     message := js ''{invalid''\<rparr>)
   \<and> JSON_parse (js ''{invalid'') = None
   \<and> error (sendMessage example_platform
        (initial\<lparr>status := Connected, wsRef := Some 0, isJson := True,
                  message := js ''{invalid''\<rparr>)) = js ''Invalid JSON: Unexpected token''
   \<and> trace (sendMessage example_platform
        (initial\<lparr>status := Connected, wsRef := Some 0, isJson := True,
                  message := js ''{invalid''\<rparr>)) = []
   \<and> length (log (sendMessage example_platform
        (initial\<lparr>status := Connected, wsRef := Some 0, isJson := True,
                  message := js ''{invalid''\<rparr>))) = 1\<close>
proof -
  let ?s = \<open>initial\<lparr>status := Connected, wsRef := Some 0, isJson := True,
                   message := js ''{invalid''\<rparr>\<close>
  have h: "isJson ?s" "JSON_parse (message ?s) = None"
    by (simp_all add: parse_invalid)
  have tr: "trim (message ?s) \<noteq> []"
    by (simp add: js_def trim_def isWhiteSpace_def)
  have m: "js ''Invalid JSON: '' @ SyntaxError_message example_platform (message ?s)
             = js ''Invalid JSON: Unexpected token''"
    by (simp add: example_platform_def js_def)
  have l: "log ?s = []" "trace ?s = []" "status ?s = Connected" "wsRef ?s = Some 0"
    by (simp_all add: initial_def)
  have e: "error (sendMessage example_platform ?s) = js ''Invalid JSON: Unexpected token''"
    using send_invalid_json [OF h, of example_platform] tr m l by simp
  show ?thesis
    using send_invalid_json [OF h, of example_platform] e l h parse_invalid by simp
qed

text \<open>
  C4 as stated fails for a blank message: a single space does not parse as JSON,
  and in JSON mode on an open connection \<open>sendMessage\<close> leaves the error empty.
\<close>

theorem send_blank_json_no_error:
  \<open>JSON_parse (message (initial\<lparr>status := Connected, wsRef := Some 0, isJson := True,
                                message := js '' ''\<rparr>)) = None
   \<and> isJson (initial\<lparr>status := Connected, wsRef := Some 0, isJson := True,
                       message := js '' ''\<rparr>)
   \<and> error (sendMessage example_platform
        (initial\<lparr>status := Connected, wsRef := Some 0, isJson := True,
                  message := js '' ''\<rparr>)) = []\<close>
proof -
  have tr: "trim (js '' '') = []"
    by (simp add: js_def trim_def isWhiteSpace_def)
  show ?thesis
    by (simp add: initial_def parse_blank sendMessage_def Let_def prims tr)
qed

section \<open>The log\<close>

lemma addLogs_log:
  "log (addLogs P es s) =
     log s @ map (\<lambda>(k, e). \<lparr>entry_id = randomUUID P k, entry_time = toLocaleTimeString P k,
                              entry_type = fst e, entry_text = snd e\<rparr>)
               (zip [tick s ..< tick s + length es] es)"
proof (induction es arbitrary: s)
  case Nil
  show ?case by (simp add: addLogs_def)
next
  case (Cons e es)
  have step: "addLogs P (e # es) s = addLogs P es (addLog P (fst e) (snd e) s)"
    by (simp add: addLogs_def)
  have up: "[tick s ..< tick s + length (e # es)]
              = tick s # [Suc (tick s) ..< Suc (tick s) + length es]"
    by (simp add: upt_rec)
  show ?case
    unfolding step Cons.IH up
    by (simp add: addLog_def)
qed

text \<open>
  C7: after appending the entries \<open>es\<close> (each a type and a text) to any log, the
  snapshot is the old log followed by one entry per element of \<open>es\<close>, in the order of
  \<open>es\<close>, each with the type and text given and the id and time the platform supplied.
  So it has \<open>length es\<close> entries more, the entries that were there are unchanged, and
  the new ones carry exactly the appended types and texts in order.
\<close>

theorem snapshot_after_appends:
  "snapshot (addLogs P es s) =
     snapshot s @ map (\<lambda>(k, e). \<lparr>entry_id = randomUUID P k,
                                   entry_time = toLocaleTimeString P k,
                                   entry_type = fst e, entry_text = snd e\<rparr>)
                    (zip [tick s ..< tick s + length es] es)
   \<and> length (snapshot (addLogs P es s)) = length (snapshot s) + length es
   \<and> take (length (snapshot s)) (snapshot (addLogs P es s)) = snapshot s
   \<and> map (\<lambda>x. (entry_type x, entry_text x))
         (drop (length (snapshot s)) (snapshot (addLogs P es s))) = es"
proof -
  let ?new = "map (\<lambda>(k, e). \<lparr>entry_id = randomUUID P k,
                                entry_time = toLocaleTimeString P k,
                                entry_type = fst e, entry_text = snd e\<rparr>)
                (zip [tick s ..< tick s + length es] es)"
  have eq: "snapshot (addLogs P es s) = snapshot s @ ?new"
    by (simp add: snapshot_def addLogs_log)
  have len: "length ?new = length es" by simp
  have proj: "map (\<lambda>x. (entry_type x, entry_text x)) ?new = es"
    by (rule nth_equalityI) (simp_all add: len)
  show ?thesis
    unfolding eq using len proj by simp
qed

text \<open>
  C8: whatever the log holds, the snapshot right after \<open>clearLog\<close> has exactly one
  entry, of type system, with the text \<open>Log cleared\<close>.
\<close>

theorem clear_then_snapshot:
  "snapshot (clearLog P s) =
     [\<lparr>entry_id = randomUUID P (tick s), entry_time = toLocaleTimeString P (tick s),
       entry_type = SYSTEM, entry_text = js ''Log cleared''\<rparr>]
   \<and> length (snapshot (clearLog P s)) = 1"
  by (simp add: snapshot_def clearLog_def prims)

section \<open>Log entries per invocation\<close>

lemma send_log_length:
  "length (log (sendMessage P s)) =
     length (log s) +
       (if status s = Connected \<and> wsRef s \<noteq> None \<and> trim (message s) = [] then 0 else 1)"
  by (simp add: sendMessage_def Let_def prims split: option.splits)

lemma send_blank_error:
  "status s = Connected \<Longrightarrow> wsRef s \<noteq> None \<Longrightarrow> trim (message s) = []
     \<Longrightarrow> error (sendMessage P s) = []"
  by (auto simp add: sendMessage_def Let_def prims split: option.splits)

text \<open>
  C2, as the code has it.  An invocation of \<open>connect\<close>, \<open>disconnect\<close>,
  \<open>sendMessage\<close> or of one of the four socket handlers that changes the status or
  leaves an error message set appends exactly one log entry, with one exception:
  a \<open>connect\<close> whose WebSocket constructor throws appends exactly two, the
  \<open>Connecting to\<close> entry and the \<open>Failed to connect\<close> entry.
\<close>

theorem log_entries_per_invocation:
  assumes "status (invoke P op s) \<noteq> status s \<or> error (invoke P op s) \<noteq> []"
  shows "length (log (invoke P op s)) =
           length (log s) +
             (if op = Connect \<and> normalizeUrl (isSecure s) (url s) \<noteq> []
                 \<and> WebSocket_throws P (normalizeUrl (isSecure s) (url s)) \<noteq> None
              then 2 else 1)"
proof (cases op)
  case Connect
  then show ?thesis by (simp add: connect_log_length)
next
  case Disconnect
  then show ?thesis by (simp add: disconnect_def prims split: option.splits)
next
  case Send
  have "\<not> (status s = Connected \<and> wsRef s \<noteq> None \<and> trim (message s) = [])"
    using assms Send send_status [of P s] send_blank_error [of s P] by auto
  then show ?thesis using Send by (simp add: send_log_length)
next
  case (OnOpen target)
  then show ?thesis by (simp add: onopen_def prims)
next
  case (OnMessage data)
  then show ?thesis by (simp add: onmessage_def prims)
next
  case (OnError m)
  then show ?thesis by (simp add: onerror_def prims)
next
  case (OnClose code reason)
  then show ?thesis by (simp add: onclose_def prims)
qed

theorem log_entries_per_invocation_witness:
  "error (invoke example_platform Connect initial) \<noteq> []
   \<and> length (log (invoke example_platform Connect initial)) = 1
   \<and> status (invoke example_platform (OnOpen (js ''wss://h'')) initial) \<noteq> status initial
   \<and> length (log (invoke example_platform (OnOpen (js ''wss://h'')) initial)) = 1"
  using log_entries_per_invocation [of example_platform Connect initial]
    log_entries_per_invocation [of example_platform "OnOpen (js ''wss://h'')" initial]
  by (simp add: initial_def connect_def normalizeUrl_def onopen_def prims)

text \<open>
  C2 as stated fails: for the URL \<open>wss://\<close> the constructor throws, the invocation
  sets an error, and it appends two entries, not one.
\<close>

theorem connect_throw_two_entries:
  "error (invoke example_platform Connect (initial\<lparr>url := js ''wss://''\<rparr>)) \<noteq> []
   \<and> length (log (invoke example_platform Connect (initial\<lparr>url := js ''wss://''\<rparr>))) =
       length (log (initial\<lparr>url := js ''wss://''\<rparr>)) + 2"
proof -
  have n: "normalizeUrl True (js ''wss://'') = js ''wss://''"
    by (simp add: normalizeUrl_def js_def trim_def isWhiteSpace_def startsWith_def)
  show ?thesis
    by (simp add: connect_def Let_def n example_platform_def initial_def prims)
qed

section \<open>Saved connections\<close>







lemma addLog_saved: "savedUrls (addLog P d t s) = savedUrls s" "tick s \<le> tick (addLog P d t s)"
  by (simp_all add: addLog_def)







end
